theory Spec2Isabelle
  imports Complex_Main "HOL-Library.Word" "HOL-Library.Log_Nat"
begin

section \<open>Python floats\<close>

text \<open>
  A Python float is an IEEE 754 binary64 value: a finite number, one of the two infinities,
  or NaN. Finite values carry their exact real value; the predicate \<open>is_double\<close> below
  says which reals are representable. Signed zeros are identified (no operation of the
  program tells them apart).
\<close>

datatype pyfloat = Fin real | PosInf | NegInf | NaN

text \<open>The comparison \<open>a < b\<close> of two floats; every comparison with NaN is false.\<close>

fun float_lt :: "pyfloat \<Rightarrow> pyfloat \<Rightarrow> bool" where
  "float_lt NaN _ = False"
| "float_lt _ NaN = False"
| "float_lt (Fin x) (Fin y) = (x < y)"
| "float_lt (Fin _) PosInf = True"
| "float_lt (Fin _) NegInf = False"
| "float_lt PosInf _ = False"
| "float_lt NegInf NegInf = False"
| "float_lt NegInf _ = True"

text \<open>The comparison \<open>a <= b\<close>.\<close>

fun float_le :: "pyfloat \<Rightarrow> pyfloat \<Rightarrow> bool" where
  "float_le NaN _ = False"
| "float_le _ NaN = False"
| "float_le (Fin x) (Fin y) = (x \<le> y)"
| "float_le (Fin _) PosInf = True"
| "float_le (Fin _) NegInf = False"
| "float_le PosInf PosInf = True"
| "float_le PosInf _ = False"
| "float_le NegInf _ = True"

definition float_gt :: "pyfloat \<Rightarrow> pyfloat \<Rightarrow> bool" where
  "float_gt a b = float_lt b a"

definition float_ge :: "pyfloat \<Rightarrow> pyfloat \<Rightarrow> bool" where
  "float_ge a b = float_le b a"

subsection \<open>Rounding to the nearest double\<close>

text \<open>Round to the nearest integer, ties to the even one.\<close>

definition round_half_even :: "real \<Rightarrow> int" where
  "round_half_even y =
     (let f = \<lfloor>y\<rfloor>; r = y - of_int f
      in if r < 1 / 2 then f
         else if 1 / 2 < r then f + 1
         else if even f then f else f + 1)"

text \<open>The exponent \<open>e\<close> with \<open>2^e \<le> x < 2^(e+1)\<close>, for \<open>x > 0\<close>.\<close>

definition binade :: "real \<Rightarrow> int" where
  "binade x = (if 1 \<le> x then bitlen \<lfloor>x\<rfloor> - 1 else - bitlen (\<lceil>1 / x\<rceil> - 1))"

text \<open>
  The exponent of the spacing of doubles around \<open>x\<close>: 52 below the binade for normal
  numbers, \<open>-1074\<close> in the subnormal range.
\<close>

definition ulp_exponent :: "real \<Rightarrow> int" where
  "ulp_exponent x = max (binade \<bar>x\<bar> - 52) (- 1074)"

text \<open>
  The correctly rounded (round-half-even) double of a real number, as long as the result
  stays below the overflow threshold \<open>2^1024\<close>.
\<close>

definition round_double :: "real \<Rightarrow> real" where
  "round_double x =
     (if x = 0 then 0
      else of_int (round_half_even (x / 2 powi ulp_exponent x)) * 2 powi ulp_exponent x)"

text \<open>The finite doubles: 53-bit signed mantissa, exponent from \<open>-1074\<close> to \<open>971\<close>.\<close>

definition is_double :: "real \<Rightarrow> bool" where
  "is_double x \<longleftrightarrow>
     (\<exists>m e. x = of_int m * 2 powi e \<and> \<bar>m\<bar> < 2 ^ 53 \<and> - 1074 \<le> e \<and> e \<le> 971)"

text \<open>A finite float: a finite value that is representable.\<close>

fun finite_float :: "pyfloat \<Rightarrow> bool" where
  "finite_float (Fin x) = is_double x"
| "finite_float _ = False"

text \<open>
  Float multiplication and addition of finite operands whose result does not overflow
  (the only ones \<open>random.uniform(200, 1000)\<close> performs).
\<close>

definition fmul :: "real \<Rightarrow> real \<Rightarrow> real" where
  "fmul x y = round_double (x * y)"

definition fadd :: "real \<Rightarrow> real \<Rightarrow> real" where
  "fadd x y = round_double (x + y)"

section \<open>Exceptions and the log\<close>

text \<open>
  The instances of \<open>Exception\<close> that the operations of the program can raise, each with
  its message. \<open>StatisticsError\<close> is a subclass of \<open>ValueError\<close>; every handler of the
  program is \<open>except Exception\<close>, which catches all of them.
\<close>

datatype exn =
    ValueError string
  | StatisticsError string
  | TypeError string
  | KeyError string
  | OverflowError string

text \<open>\<open>str(e)\<close>, as the f-strings of the handlers format it.\<close>

fun str_exn :: "exn \<Rightarrow> string" where
  "str_exn (ValueError m) = m"
| "str_exn (StatisticsError m) = m"
| "str_exn (TypeError m) = m"
| "str_exn (KeyError k) = [CHR 0x27] @ k @ [CHR 0x27]"
| "str_exn (OverflowError m) = m"

datatype level = INFO | ERROR

text \<open>
  A log message: a plain text, or the text \<open>f"Energy Usage Insights: {insights}"\<close>, kept
  with the record it formats.
\<close>

datatype message = Text string | InsightsText "(string \<times> pyfloat) list"

type_synonym log = "(level \<times> message) list"

definition logging_error :: "string \<Rightarrow> log \<Rightarrow> log" where
  "logging_error m lg = lg @ [(ERROR, Text m)]"

definition logging_info :: "message \<Rightarrow> log \<Rightarrow> log" where
  "logging_info m lg = lg @ [(INFO, m)]"

section \<open>generate_mock_data\<close>

text \<open>
  \<open>random.random()\<close> returns \<open>k / 2^53\<close> for a 53-bit integer \<open>k\<close> drawn by the
  generator; the draws are a parameter of the model.
\<close>

definition random_random :: "53 word \<Rightarrow> real" where
  "random_random k = real (unat k) / 2 ^ 53"

text \<open>\<open>random.uniform(a, b)\<close> is \<open>a + (b - a) * self.random()\<close>, in float arithmetic.\<close>

definition random_uniform :: "int \<Rightarrow> int \<Rightarrow> 53 word \<Rightarrow> pyfloat" where
  "random_uniform a b k = Fin (fadd (of_int a) (fmul (of_int (b - a)) (random_random k)))"

text \<open>
  A list comprehension \<open>[f(i) for i in range(n)]\<close> whose element expression may raise:
  elements are evaluated from left to right and the first exception ends the evaluation.
\<close>

fun comprehension :: "(nat \<Rightarrow> exn + 'a) \<Rightarrow> nat list \<Rightarrow> exn + 'a list" where
  "comprehension f [] = Inr []"
| "comprehension f (i # is) =
     (case f i of
        Inl e \<Rightarrow> Inl e
      | Inr v \<Rightarrow> (case comprehension f is of Inl e \<Rightarrow> Inl e | Inr vs \<Rightarrow> Inr (v # vs)))"

text \<open>
  The function with the sampler as a parameter: \<open>sample i\<close> is the outcome of the
  \<open>i\<close>-th call of \<open>random.uniform(200, 1000)\<close>.
\<close>

definition generate_mock_data_with :: "(nat \<Rightarrow> exn + pyfloat) \<Rightarrow> log \<Rightarrow> pyfloat list \<times> log" where
  "generate_mock_data_with sample lg =
     (case comprehension sample [0 ..< 24 * 7] of
        Inr data \<Rightarrow> (data, lg)
      | Inl e \<Rightarrow> ([], logging_error (''Error generating mock data: '' @ str_exn e) lg))"

text \<open>The function as the program runs it: the library's \<open>random.uniform\<close> never raises.\<close>

definition generate_mock_data :: "(nat \<Rightarrow> 53 word) \<Rightarrow> log \<Rightarrow> pyfloat list \<times> log" where
  "generate_mock_data rng lg =
     generate_mock_data_with (\<lambda>i. Inr (random_uniform 200 1000 (rng i))) lg"

section \<open>analyze_energy_usage\<close>

text \<open>
  \<open>statistics.mean\<close>: the values are summed exactly (as fractions) and the quotient is
  converted to a float, correctly rounded; the conversion raises \<open>OverflowError\<close> when the
  quotient is too large for a float. When a value is an infinity or NaN, the result is the
  float sum of the non-finite values alone.
\<close>

fun is_Fin :: "pyfloat \<Rightarrow> bool" where
  "is_Fin (Fin _) = True"
| "is_Fin _ = False"

fun the_Fin :: "pyfloat \<Rightarrow> real" where
  "the_Fin (Fin x) = x"
| "the_Fin _ = 0"

text \<open>The float sum of two non-finite values.\<close>

fun nonfinite_add :: "pyfloat \<Rightarrow> pyfloat \<Rightarrow> pyfloat" where
  "nonfinite_add PosInf PosInf = PosInf"
| "nonfinite_add NegInf NegInf = NegInf"
| "nonfinite_add _ _ = NaN"

fun nonfinite_sum :: "pyfloat list \<Rightarrow> pyfloat" where
  "nonfinite_sum [] = NaN"
| "nonfinite_sum (x # xs) = fold (\<lambda>n acc. nonfinite_add acc n) xs x"

definition float_of_fraction :: "real \<Rightarrow> exn + pyfloat" where
  "float_of_fraction q =
     (if 2 ^ 1024 \<le> \<bar>round_double q\<bar>
      then Inl (OverflowError ''integer division result too large for a float'')
      else Inr (Fin (round_double q)))"

definition statistics_mean :: "pyfloat list \<Rightarrow> exn + pyfloat" where
  "statistics_mean data =
     (if data = [] then Inl (StatisticsError ''mean requires at least one data point'')
      else if list_all is_Fin data
      then float_of_fraction (sum_list (map the_Fin data) / real (length data))
      else Inr (nonfinite_sum (filter (\<lambda>x. \<not> is_Fin x) data)))"

text \<open>
  The builtins \<open>max\<close> and \<open>min\<close>: the first element is the candidate, and a later
  element replaces it when it compares strictly greater (smaller).
\<close>

fun py_max :: "pyfloat list \<Rightarrow> exn + pyfloat" where
  "py_max [] = Inl (ValueError ''max() iterable argument is empty'')"
| "py_max (x # xs) = Inr (fold (\<lambda>item m. if float_gt item m then item else m) xs x)"

fun py_min :: "pyfloat list \<Rightarrow> exn + pyfloat" where
  "py_min [] = Inl (ValueError ''min() iterable argument is empty'')"
| "py_min (x # xs) = Inr (fold (\<lambda>item m. if float_lt item m then item else m) xs x)"

text \<open>The body of the \<open>try\<close> block; the record is a dict in insertion order.\<close>

definition analyze_energy_usage_try :: "pyfloat list \<Rightarrow> exn + (string \<times> pyfloat) list" where
  "analyze_energy_usage_try data =
     (case statistics_mean data of
        Inl e \<Rightarrow> Inl e
      | Inr average_usage \<Rightarrow>
          (case py_max data of
             Inl e \<Rightarrow> Inl e
           | Inr max_usage \<Rightarrow>
               (case py_min data of
                  Inl e \<Rightarrow> Inl e
                | Inr min_usage \<Rightarrow>
                    Inr [(''average_usage'', average_usage),
                         (''max_usage'', max_usage),
                         (''min_usage'', min_usage)])))"

definition analyze_energy_usage :: "pyfloat list \<Rightarrow> log \<Rightarrow> (string \<times> pyfloat) list \<times> log" where
  "analyze_energy_usage data lg =
     (case analyze_energy_usage_try data of
        Inr insights \<Rightarrow> (insights, lg)
      | Inl e \<Rightarrow> ([], logging_error (''Error analyzing energy usage: '' @ str_exn e) lg))"

section \<open>provide_recommendations\<close>

text \<open>
  Type hints are not enforced, so the argument is any Python value; the ones that matter
  are floats, ints, and values that do not compare with an int.
\<close>

datatype pyval = PFloat pyfloat | PInt int | PStr string | PNone

text \<open>\<open>v > k\<close>, \<open>k < v\<close> and \<open>v <= k\<close> for an int literal \<open>k\<close> (floats and ints compare exactly).\<close>

definition unsupported :: "string \<Rightarrow> string \<Rightarrow> string \<Rightarrow> exn" where
  "unsupported opr l r =
     TypeError ([CHR 0x27] @ opr @ [CHR 0x27] @ '' not supported between instances of ''
                @ [CHR 0x27] @ l @ [CHR 0x27] @ '' and '' @ [CHR 0x27] @ r @ [CHR 0x27])"

fun py_gt :: "pyval \<Rightarrow> int \<Rightarrow> exn + bool" where
  "py_gt (PFloat a) k = Inr (float_gt a (Fin (of_int k)))"
| "py_gt (PInt i) k = Inr (i > k)"
| "py_gt (PStr _) k = Inl (unsupported ''>'' ''str'' ''int'')"
| "py_gt PNone k = Inl (unsupported ''>'' ''NoneType'' ''int'')"

fun py_lt_rev :: "int \<Rightarrow> pyval \<Rightarrow> exn + bool" where
  "py_lt_rev k (PFloat a) = Inr (float_lt (Fin (of_int k)) a)"
| "py_lt_rev k (PInt i) = Inr (k < i)"
| "py_lt_rev k (PStr _) = Inl (unsupported ''<'' ''int'' ''str'')"
| "py_lt_rev k PNone = Inl (unsupported ''<'' ''int'' ''NoneType'')"

fun py_le :: "pyval \<Rightarrow> int \<Rightarrow> exn + bool" where
  "py_le (PFloat a) k = Inr (float_le a (Fin (of_int k)))"
| "py_le (PInt i) k = Inr (i \<le> k)"
| "py_le (PStr _) k = Inl (unsupported ''<='' ''str'' ''int'')"
| "py_le PNone k = Inl (unsupported ''<='' ''NoneType'' ''int'')"

text \<open>The chained comparison \<open>lo < v <= hi\<close>: the second test runs only when the first holds.\<close>

definition py_between :: "int \<Rightarrow> pyval \<Rightarrow> int \<Rightarrow> exn + bool" where
  "py_between lo v hi =
     (case py_lt_rev lo v of
        Inl e \<Rightarrow> Inl e
      | Inr False \<Rightarrow> Inr False
      | Inr True \<Rightarrow> py_le v hi)"

text \<open>
  The body of the \<open>try\<close> block, run on the list \<open>recommendations\<close>: it returns the
  exception raised, if any, and the list as the appends left it.
\<close>

definition provide_recommendations_try :: "pyval \<Rightarrow> string list \<Rightarrow> exn option \<times> string list" where
  "provide_recommendations_try average_usage recommendations =
     (case py_gt average_usage 750 of
        Inl e \<Rightarrow> (Some e, recommendations)
      | Inr True \<Rightarrow>
          (None, (recommendations @ [''Consider using energy-efficient appliances.''])
                   @ [''Check insulation in your home to reduce heating/cooling costs.''])
      | Inr False \<Rightarrow>
          (case py_between 500 average_usage 750 of
             Inl e \<Rightarrow> (Some e, recommendations)
           | Inr True \<Rightarrow>
               (None, (recommendations @ [''Unplug devices when not in use.''])
                        @ [''Use programmable thermostats to reduce energy consumption.''])
           | Inr False \<Rightarrow>
               (None, recommendations
                        @ [''You're doing great! Continue monitoring for further improvements.''])))"

definition provide_recommendations :: "pyval \<Rightarrow> log \<Rightarrow> string list \<times> log" where
  "provide_recommendations average_usage lg =
     (case provide_recommendations_try average_usage [] of
        (None, recommendations) \<Rightarrow> (recommendations, lg)
      | (Some e, recommendations) \<Rightarrow>
          (recommendations, logging_error (''Error providing recommendations: '' @ str_exn e) lg))"

section \<open>run_smart_conserve\<close>

text \<open>\<open>insights[key]\<close>: the value stored under the key, or \<open>KeyError\<close>.\<close>

definition dict_get :: "(string \<times> pyfloat) list \<Rightarrow> string \<Rightarrow> exn + pyfloat" where
  "dict_get d k = (case map_of d k of None \<Rightarrow> Inl (KeyError k) | Some v \<Rightarrow> Inr v)"

text \<open>
  The \<open>try\<close> block in three parts, in the order of the source: from the check of the
  analysis result on, from the check of the generated data on, and the whole block. Each
  returns the exception that leaves the block, if any, and the log.
\<close>

definition run_report :: "(string \<times> pyfloat) list \<Rightarrow> log \<Rightarrow> exn option \<times> log" where
  "run_report insights lg =
     (if insights = [] then (Some (ValueError ''Could not analyze energy data.''), lg)
      else
        let lg1 = logging_info (InsightsText insights) lg
        in case dict_get insights ''average_usage'' of
             Inl e \<Rightarrow> (Some e, lg1)
           | Inr average_usage \<Rightarrow>
               (case provide_recommendations (PFloat average_usage) lg1 of
                  (recommendations, lg2) \<Rightarrow>
                    (None,
                     fold (\<lambda>rec l. logging_info (Text (''- '' @ rec)) l) recommendations
                       (logging_info (Text ''Energy Conservation Recommendations:'') lg2))))"

definition run_analysis :: "pyfloat list \<Rightarrow> log \<Rightarrow> exn option \<times> log" where
  "run_analysis energy_data lg =
     (if energy_data = [] then (Some (ValueError ''No energy data available.''), lg)
      else case analyze_energy_usage energy_data lg of
             (insights, lg1) \<Rightarrow> run_report insights lg1)"

definition run_smart_conserve_try :: "(nat \<Rightarrow> 53 word) \<Rightarrow> log \<Rightarrow> exn option \<times> log" where
  "run_smart_conserve_try rng lg =
     (case generate_mock_data rng lg of
        (energy_data, lg1) \<Rightarrow> run_analysis energy_data lg1)"

text \<open>
  The whole function: the clause \<open>except Exception\<close> applied to the outcome of the
  \<open>try\<close> block. The first component is the exception that propagates to the caller,
  if any.
\<close>

fun run_except :: "exn option \<times> log \<Rightarrow> exn option \<times> log" where
  "run_except (None, lg) = (None, lg)"
| "run_except (Some e, lg) =
     (None, logging_error (''Error running smart-conserve: '' @ str_exn e) lg)"

definition run_smart_conserve :: "(nat \<Rightarrow> 53 word) \<Rightarrow> log \<Rightarrow> exn option \<times> log" where
  "run_smart_conserve rng lg = run_except (run_smart_conserve_try rng lg)"

section \<open>Properties of rounding\<close>

lemma round_half_even_of_int: "round_half_even (of_int n) = n"
  by (simp add: round_half_even_def)

lemma round_half_even_bounds:
  "\<lfloor>y\<rfloor> \<le> round_half_even y \<and> round_half_even y \<le> \<lfloor>y\<rfloor> + 1"
  by (simp add: round_half_even_def Let_def)

lemma round_half_even_mono:
  assumes "x \<le> y"
  shows "round_half_even x \<le> round_half_even y"
proof (cases "\<lfloor>x\<rfloor> = \<lfloor>y\<rfloor>")
  case True
  with assms show ?thesis
    by (auto simp: round_half_even_def Let_def)
next
  case False
  with assms have "\<lfloor>x\<rfloor> + 1 \<le> \<lfloor>y\<rfloor>"
    using floor_mono [of x y] by linarith
  with round_half_even_bounds [of x] round_half_even_bounds [of y] show ?thesis
    by linarith
qed

lemma round_half_even_minus: "round_half_even (- y) = - round_half_even y"
proof (cases "y = of_int \<lfloor>y\<rfloor>")
  case True
  then obtain n where "y = of_int n" ..
  then show ?thesis
    by (simp add: round_half_even_of_int flip: of_int_minus)
next
  case False
  then have c: "\<lceil>y\<rceil> = \<lfloor>y\<rfloor> + 1"
    by (metis ceiling_altdef)
  have f: "\<lfloor>- y\<rfloor> = - \<lfloor>y\<rfloor> - 1"
    using c by (simp add: ceiling_def)
  show ?thesis
    unfolding round_half_even_def Let_def f
    by (auto simp: algebra_simps)
qed

lemma binade_bounds:
  assumes "0 < x"
  shows "2 powi binade x \<le> x \<and> x < 2 powi (binade x + 1)"
proof (cases "1 \<le> x")
  case True
  define n where "n = \<lfloor>x\<rfloor>"
  have n: "0 < n" using True by (simp add: n_def)
  have b: "1 \<le> bitlen n" using n by (auto simp: bitlen_alt_def)
  from bitlen_bounds [OF n] have lo: "2 ^ nat (bitlen n - 1) \<le> n" and hi: "n < 2 ^ nat (bitlen n)"
    by simp_all
  have "(2::real) powi (bitlen n - 1) = 2 ^ nat (bitlen n - 1)"
    using b by (simp add: power_int_nonneg_exp)
  also have "\<dots> = of_int (2 ^ nat (bitlen n - 1))" by simp
  also have "\<dots> \<le> of_int n" using lo by (simp only: of_int_le_iff)
  also have "\<dots> \<le> x" by (simp add: n_def)
  finally have 1: "2 powi (bitlen n - 1) \<le> x" .
  have "n + 1 \<le> 2 ^ nat (bitlen n)" using hi by simp
  then have "of_int (n + 1) \<le> (of_int (2 ^ nat (bitlen n)) :: real)"
    by (simp only: of_int_le_iff)
  moreover have "x < of_int (n + 1)" by (simp add: n_def)
  ultimately have "x < 2 ^ nat (bitlen n)" by simp
  also have "\<dots> = 2 powi (bitlen n)"
    using b by (simp add: power_int_nonneg_exp)
  finally have 2: "x < 2 powi (bitlen n - 1 + 1)" by simp
  from True 1 2 show ?thesis by (simp add: binade_def n_def)
next
  case False
  define y where "y = 1 / x"
  define n where "n = \<lceil>y\<rceil> - 1"
  have y: "1 < y" using False assms by (simp add: y_def)
  have n: "0 < n" using y unfolding n_def by linarith
  have b: "1 \<le> bitlen n" using n by (auto simp: bitlen_alt_def)
  from bitlen_bounds [OF n] have lo: "2 ^ nat (bitlen n - 1) \<le> n" and hi: "n < 2 ^ nat (bitlen n)"
    by simp_all
  have ny: "of_int n < y" "y \<le> of_int (n + 1)"
    unfolding n_def by linarith+
  have "n + 1 \<le> 2 ^ nat (bitlen n)" using hi by simp
  then have "of_int (n + 1) \<le> (of_int (2 ^ nat (bitlen n)) :: real)"
    by (simp only: of_int_le_iff)
  with ny have "y \<le> 2 ^ nat (bitlen n)" by simp
  also have "\<dots> = 2 powi (bitlen n)"
    using b by (simp add: power_int_nonneg_exp)
  finally have "1 / x \<le> 2 powi bitlen n" by (simp add: y_def)
  then have 1: "2 powi (- bitlen n) \<le> x"
    using assms by (simp add: power_int_minus field_simps)
  have "(2::real) powi (bitlen n - 1) = 2 ^ nat (bitlen n - 1)"
    using b by (simp add: power_int_nonneg_exp)
  also have "\<dots> = of_int (2 ^ nat (bitlen n - 1))" by simp
  also have "\<dots> \<le> of_int n" using lo by (simp only: of_int_le_iff)
  also have "\<dots> < y" using ny by simp
  finally have "2 powi (bitlen n - 1) < 1 / x" by (simp add: y_def)
  then have "x < 1 / 2 powi (bitlen n - 1)"
    using assms by (simp add: field_simps)
  also have "\<dots> = 2 powi (- bitlen n + 1)"
    by (simp add: power_int_minus_divide [symmetric])
  finally have 2: "x < 2 powi (- bitlen n + 1)" .
  from False 1 2 show ?thesis by (simp add: binade_def n_def y_def)
qed

lemma two_powi_less_iff: "(2::real) powi m < 2 powi n \<longleftrightarrow> m < n"
proof
  assume "(2::real) powi m < 2 powi n"
  then show "m < n"
    using power_int_increasing [of n m "2::real"] by (cases "m < n") auto
next
  assume "m < n"
  then show "(2::real) powi m < 2 powi n"
    by (simp add: power_int_strict_increasing)
qed

lemma two_powi_le_iff: "(2::real) powi m \<le> 2 powi n \<longleftrightarrow> m \<le> n"
  using two_powi_less_iff [of n m] by (auto simp: not_less [symmetric])

lemma ulp_exponent_minus: "ulp_exponent (- x) = ulp_exponent x"
  by (simp add: ulp_exponent_def)

lemma ulp_upper:
  assumes "x \<noteq> 0"
  shows "\<bar>x\<bar> < 2 powi (ulp_exponent x + 53)"
proof -
  have "0 < \<bar>x\<bar>" using assms by simp
  from binade_bounds [OF this] have "\<bar>x\<bar> < 2 powi (binade \<bar>x\<bar> + 1)" by simp
  also have "\<dots> \<le> 2 powi (ulp_exponent x + 53)"
    by (simp only: two_powi_le_iff) (simp add: ulp_exponent_def)
  finally show ?thesis .
qed

lemma ulp_lower:
  assumes "x \<noteq> 0" "- 1074 < ulp_exponent x"
  shows "2 powi (ulp_exponent x + 52) \<le> \<bar>x\<bar>"
proof -
  have "0 < \<bar>x\<bar>" using assms by simp
  from binade_bounds [OF this] have "2 powi binade \<bar>x\<bar> \<le> \<bar>x\<bar>" by simp
  moreover have "ulp_exponent x + 52 = binade \<bar>x\<bar>"
    using assms(2) by (simp add: ulp_exponent_def max_def split: if_splits)
  ultimately show ?thesis by simp
qed

lemma round_double_minus: "round_double (- x) = - round_double x"
  by (simp add: round_double_def ulp_exponent_minus round_half_even_minus)

lemma round_double_pos_bounds:
  assumes "0 < x"
  shows "0 \<le> round_double x"
    and "round_double x \<le> 2 powi (ulp_exponent x + 53)"
    and "- 1074 < ulp_exponent x \<Longrightarrow> 2 powi (ulp_exponent x + 52) \<le> round_double x"
proof -
  define e where "e = ulp_exponent x"
  define u :: real where "u = 2 powi e"
  have u: "0 < u" by (simp add: u_def)
  have rd: "round_double x = of_int (round_half_even (x / u)) * u"
    using assms by (simp add: round_double_def e_def u_def)
  have "0 \<le> x / u" using assms u by simp
  then have "round_half_even 0 \<le> round_half_even (x / u)"
    by (rule round_half_even_mono)
  then have "0 \<le> round_half_even (x / u)"
    using round_half_even_of_int [of 0] by simp
  then show "0 \<le> round_double x" using u by (simp add: rd)
  have "x < 2 powi (e + 53)" using ulp_upper [of x] assms by (simp add: e_def)
  also have "\<dots> = 2 ^ 53 * u" by (simp add: u_def power_int_add)
  finally have "x / u \<le> of_int (2 ^ 53)" using u by (simp add: field_simps)
  then have "round_half_even (x / u) \<le> round_half_even (of_int (2 ^ 53))"
    by (rule round_half_even_mono)
  then have "round_half_even (x / u) \<le> 2 ^ 53"
    by (simp only: round_half_even_of_int)
  then have "(of_int (round_half_even (x / u)) :: real) \<le> of_int (2 ^ 53)"
    by (simp only: of_int_le_iff)
  then have "of_int (round_half_even (x / u)) * u \<le> 2 ^ 53 * u"
    using u by simp
  then show "round_double x \<le> 2 powi (ulp_exponent x + 53)"
    by (simp add: rd u_def e_def power_int_add)
  assume "- 1074 < ulp_exponent x"
  from ulp_lower [OF _ this] assms have "2 powi (e + 52) \<le> x" by (simp add: e_def)
  moreover have "(2::real) powi (e + 52) = 2 ^ 52 * u" by (simp add: u_def power_int_add)
  ultimately have "of_int (2 ^ 52) \<le> x / u" using u by (simp add: field_simps)
  then have "round_half_even (of_int (2 ^ 52)) \<le> round_half_even (x / u)"
    by (rule round_half_even_mono)
  then have "2 ^ 52 \<le> round_half_even (x / u)"
    by (simp only: round_half_even_of_int)
  then have "(of_int (2 ^ 52) :: real) \<le> of_int (round_half_even (x / u))"
    by (simp only: of_int_le_iff)
  then have "2 ^ 52 * u \<le> of_int (round_half_even (x / u)) * u"
    using u by simp
  then show "2 powi (ulp_exponent x + 52) \<le> round_double x"
    by (simp add: rd u_def e_def power_int_add)
qed

lemma round_double_mono_pos:
  assumes "0 < x" "x \<le> y"
  shows "round_double x \<le> round_double y"
proof -
  have y: "0 < y" using assms by simp
  consider "ulp_exponent x = ulp_exponent y" | "ulp_exponent x < ulp_exponent y"
    | "ulp_exponent y < ulp_exponent x" by linarith
  then show ?thesis
  proof cases
    case 1
    have "x / 2 powi ulp_exponent y \<le> y / 2 powi ulp_exponent y"
      using assms by (simp add: divide_right_mono)
    then have "round_half_even (x / 2 powi ulp_exponent y) \<le> round_half_even (y / 2 powi ulp_exponent y)"
      by (rule round_half_even_mono)
    then have "(of_int (round_half_even (x / 2 powi ulp_exponent y)) :: real)
        \<le> of_int (round_half_even (y / 2 powi ulp_exponent y))"
      by (simp only: of_int_le_iff)
    then show ?thesis
      using assms y 1 by (simp add: round_double_def)
  next
    case 2
    then have n: "- 1074 < ulp_exponent y" by (simp add: ulp_exponent_def)
    have "round_double x \<le> 2 powi (ulp_exponent x + 53)"
      using round_double_pos_bounds(2) [OF assms(1)] .
    also have "\<dots> \<le> 2 powi (ulp_exponent y + 52)"
      using 2 by (simp add: two_powi_le_iff)
    also have "\<dots> \<le> round_double y"
      using round_double_pos_bounds(3) [OF y n] .
    finally show ?thesis .
  next
    case 3
    then have n: "- 1074 < ulp_exponent x" by (simp add: ulp_exponent_def)
    have "y < 2 powi (ulp_exponent y + 53)" using ulp_upper [of y] y by simp
    also have "\<dots> \<le> 2 powi (ulp_exponent x + 52)"
      using 3 by (simp add: two_powi_le_iff)
    also have "\<dots> \<le> x" using ulp_lower [OF _ n] assms(1) by simp
    finally show ?thesis using assms(2) by simp
  qed
qed

lemma round_double_zero: "round_double 0 = 0"
  by (simp add: round_double_def)

lemma round_double_mono:
  assumes "x \<le> y"
  shows "round_double x \<le> round_double y"
proof -
  consider "0 < x" | "x = 0" "y = 0" | "x = 0" "0 < y" | "x < 0" "0 < y" | "x < 0" "y = 0"
    | "x < 0" "y < 0"
    using assms by linarith
  then show ?thesis
  proof cases
    case 1
    then show ?thesis using assms by (rule round_double_mono_pos)
  next
    case 2
    then show ?thesis by simp
  next
    case 3
    then show ?thesis using round_double_pos_bounds(1) [of y] by (simp add: round_double_zero)
  next
    case 4
    have "0 \<le> round_double (- x)" using 4 round_double_pos_bounds(1) [of "- x"] by simp
    moreover have "0 \<le> round_double y" using 4 round_double_pos_bounds(1) [of y] by simp
    ultimately show ?thesis by (simp add: round_double_minus)
  next
    case 5
    have "0 \<le> round_double (- x)" using 5 round_double_pos_bounds(1) [of "- x"] by simp
    then show ?thesis using 5 by (simp add: round_double_minus round_double_zero)
  next
    case 6
    have "round_double (- y) \<le> round_double (- x)"
      using 6 assms by (intro round_double_mono_pos) simp_all
    then show ?thesis by (simp add: round_double_minus)
  qed
qed

lemma round_double_is_double:
  assumes "is_double d"
  shows "round_double d = d"
proof (cases "d = 0")
  case True
  then show ?thesis by (simp add: round_double_def)
next
  case False
  from assms obtain m k where d: "d = of_int m * 2 powi k"
    and m: "\<bar>m\<bar> < 2 ^ 53" and k: "- 1074 \<le> k"
    by (auto simp: is_double_def)
  define e where "e = ulp_exponent d"
  have pos: "0 < \<bar>d\<bar>" using False by simp
  have "(of_int \<bar>m\<bar> :: real) < of_int (2 ^ 53)" using m by (simp only: of_int_less_iff)
  then have "\<bar>of_int m :: real\<bar> < 2 ^ 53" by simp
  then have "\<bar>of_int m :: real\<bar> * 2 powi k < 2 ^ 53 * 2 powi k"
    by (simp add: mult_strict_right_mono)
  then have "\<bar>d\<bar> < 2 powi (k + 53)"
    by (simp add: d abs_mult power_int_add)
  with binade_bounds [OF pos] have "(2::real) powi binade \<bar>d\<bar> < 2 powi (k + 53)"
    by linarith
  then have "binade \<bar>d\<bar> < k + 53" by (simp only: two_powi_less_iff)
  with k have ek: "e \<le> k" by (simp add: e_def ulp_exponent_def)
  have "d / 2 powi e = of_int m * 2 powi (k - e)"
    by (simp add: d power_int_diff)
  also have "\<dots> = of_int m * 2 ^ nat (k - e)"
    using ek by (simp add: power_int_nonneg_exp)
  also have "\<dots> = of_int (m * 2 ^ nat (k - e))" by simp
  finally have q: "d / 2 powi e = of_int (m * 2 ^ nat (k - e))" .
  have "round_double d = of_int (round_half_even (d / 2 powi e)) * 2 powi e"
    using False by (simp add: round_double_def e_def)
  also have "\<dots> = of_int (m * 2 ^ nat (k - e)) * 2 powi e"
    by (simp only: q round_half_even_of_int)
  also have "\<dots> = d / 2 powi e * 2 powi e" by (simp only: q)
  also have "\<dots> = d" by simp
  finally show ?thesis .
qed

lemma is_double_bound:
  assumes "is_double d"
  shows "\<bar>d\<bar> < 2 ^ 1024"
proof -
  from assms obtain m k where d: "d = of_int m * 2 powi k"
    and m: "\<bar>m\<bar> < 2 ^ 53" and k: "k \<le> 971"
    by (auto simp: is_double_def)
  have "(of_int \<bar>m\<bar> :: real) < of_int (2 ^ 53)" using m by (simp only: of_int_less_iff)
  then have "\<bar>of_int m :: real\<bar> < 2 ^ 53" by simp
  then have "\<bar>of_int m :: real\<bar> * 2 powi k < 2 ^ 53 * 2 powi k"
    by (simp add: mult_strict_right_mono)
  then have "\<bar>d\<bar> < 2 powi (k + 53)"
    by (simp add: d abs_mult power_int_add)
  also have "\<dots> \<le> 2 powi 1024"
  proof -
    have "k + 53 \<le> 1024" using k by simp
    then show ?thesis by (simp only: two_powi_le_iff)
  qed
  finally show ?thesis by (simp only: power_int_numeral)
qed

lemma round_double_between:
  assumes "is_double lo" "is_double hi" "lo \<le> x" "x \<le> hi"
  shows "lo \<le> round_double x \<and> round_double x \<le> hi"
  using round_double_mono [OF assms(3)] round_double_mono [OF assms(4)]
  by (simp add: round_double_is_double assms(1,2))

lemma is_double_int:
  assumes "\<bar>n\<bar> < 2 ^ 53"
  shows "is_double (of_int n)"
  unfolding is_double_def
  using assms by (intro exI [of _ n] exI [of _ 0]) simp

lemma round_double_pos_is_double:
  assumes "0 < x" "round_double x < 2 ^ 1024"
  shows "is_double (round_double x)"
proof -
  define e where "e = ulp_exponent x"
  define n where "n = round_half_even (x / 2 powi e)"
  have rd: "round_double x = of_int n * 2 powi e"
    using assms(1) by (simp add: round_double_def e_def n_def)
  have e_lo: "- 1074 \<le> e" by (simp add: e_def ulp_exponent_def)
  have n0: "0 \<le> n"
  proof -
    have "0 \<le> of_int n * (2::real) powi e"
      using round_double_pos_bounds(1) [OF assms(1)] by (simp only: rd)
    moreover have "0 < (2::real) powi e" by simp
    ultimately have "0 \<le> (of_int n :: real)"
      by (simp only: zero_le_mult_iff) linarith
    then show ?thesis by simp
  qed
  have n_hi: "n \<le> 2 ^ 53"
  proof -
    have "of_int n * (2::real) powi e \<le> 2 powi (e + 53)"
      using round_double_pos_bounds(2) [OF assms(1)] by (simp only: rd e_def)
    also have "\<dots> = 2 ^ 53 * 2 powi e" by (simp add: power_int_add)
    finally have "(of_int n :: real) \<le> of_int (2 ^ 53)" by simp
    then show ?thesis by (simp only: of_int_le_iff)
  qed
  have e_hi: "e \<le> 971"
  proof (cases "- 1074 < e")
    case True
    then have "2 powi (e + 52) \<le> round_double x"
      using round_double_pos_bounds(3) [OF assms(1)] by (simp add: e_def)
    with assms(2) have "(2::real) powi (e + 52) < 2 powi 1024"
      by (simp only: power_int_numeral)
    then have "e + 52 < 1024" by (simp only: two_powi_less_iff)
    then show ?thesis by simp
  next
    case False
    then show ?thesis by simp
  qed
  show ?thesis
  proof (cases "n = 2 ^ 53")
    case False
    with n_hi n0 have "\<bar>n\<bar> < 2 ^ 53" by simp
    with e_lo e_hi rd show ?thesis
      unfolding is_double_def by blast
  next
    case True
    have v: "round_double x = of_int (2 ^ 52) * 2 powi (e + 1)"
      by (simp add: rd True power_int_add)
    have "(2::real) powi (e + 53) = 2 ^ 53 * 2 powi e" by (simp add: power_int_add)
    also have "\<dots> = round_double x" by (simp add: rd True)
    also have "\<dots> < 2 powi 1024" using assms(2) by (simp only: power_int_numeral)
    finally have "e + 53 < 1024" by (simp only: two_powi_less_iff)
    then have "e + 1 \<le> 971" by simp
    moreover have "- 1074 \<le> e + 1" using e_lo by simp
    moreover have "\<bar>2 ^ 52 :: int\<bar> < 2 ^ 53" by simp
    ultimately show ?thesis
      unfolding is_double_def using v by blast
  qed
qed

lemma is_double_minus: "is_double x \<Longrightarrow> is_double (- x)"
  unfolding is_double_def
proof (elim exE conjE)
  fix m e
  assume "x = of_int m * 2 powi e" "\<bar>m\<bar> < 2 ^ 53" "- 1074 \<le> e" "e \<le> 971"
  then have "- x = of_int (- m) * 2 powi e \<and> \<bar>- m\<bar> < 2 ^ 53 \<and> - 1074 \<le> e \<and> e \<le> 971"
    by simp
  then show "\<exists>m e. - x = of_int m * 2 powi e \<and> \<bar>m\<bar> < 2 ^ 53 \<and> - 1074 \<le> e \<and> e \<le> 971"
    by blast
qed

lemma round_double_range:
  assumes "\<bar>round_double x\<bar> < 2 ^ 1024"
  shows "is_double (round_double x)"
proof -
  consider "0 < x" | "x = 0" | "x < 0" by linarith
  then show ?thesis
  proof cases
    case 1
    then show ?thesis using assms by (intro round_double_pos_is_double) simp_all
  next
    case 2
    then show ?thesis using is_double_int [of 0] by (simp add: round_double_zero)
  next
    case 3
    have "is_double (round_double (- x))"
      using 3 assms by (intro round_double_pos_is_double) (simp_all add: round_double_minus)
    then have "is_double (- round_double (- x))" by (rule is_double_minus)
    then show ?thesis by (simp add: round_double_minus)
  qed
qed

lemma random_random_bounds: "0 \<le> random_random k \<and> random_random k \<le> 1 - 1 / 2 ^ 53"
proof -
  define n where "n = unat k"
  have "n < 2 ^ 53" using unsigned_less [of k] by (simp add: n_def)
  then have "n + 1 \<le> 2 ^ 53" by simp
  then have "real (n + 1) \<le> real (2 ^ 53)" by (simp only: of_nat_le_iff)
  then have "real n \<le> 2 ^ 53 - 1" by simp
  then have "real n / 2 ^ 53 \<le> (2 ^ 53 - 1) / 2 ^ 53"
    by (simp only: divide_right_mono zero_le_numeral zero_le_power)
  moreover have "0 \<le> real n / 2 ^ 53" by simp
  moreover have "random_random k = real n / 2 ^ 53"
    by (simp only: random_random_def n_def)
  ultimately show ?thesis by simp
qed

lemma round_double_200: "round_double 200 = 200"
  by code_simp

lemma round_double_1000_pred: "round_double (1000 - 1 / 2 ^ 43) = 1000 - 1 / 2 ^ 43"
  by code_simp

lemma round_double_800_top: "round_double (800 * (1 - 1 / 2 ^ 53)) = 800 - 1 / 2 ^ 43"
  by code_simp

lemma random_uniform_bounds:
  "\<exists>x. random_uniform 200 1000 k = Fin x \<and> is_double x \<and> 200 \<le> x \<and> x \<le> 1000 - 1 / 2 ^ 43"
proof -
  define r where "r = random_random k"
  define p where "p = fmul 800 r"
  have r: "0 \<le> r" "r \<le> 1 - 1 / 2 ^ 53"
    using random_random_bounds [of k] by (simp_all add: r_def)
  have "round_double 0 \<le> round_double (800 * r)"
    using r(1) by (intro round_double_mono) simp
  then have p0: "0 \<le> p" by (simp add: p_def fmul_def round_double_zero)
  have "800 * r \<le> 800 * (1 - 1 / 2 ^ 53)"
    using r(2) by (simp only: mult_left_mono zero_le_numeral)
  then have "round_double (800 * r) \<le> round_double (800 * (1 - 1 / 2 ^ 53))"
    by (rule round_double_mono)
  then have p1: "p \<le> 800 - 1 / 2 ^ 43"
    by (simp only: round_double_800_top p_def fmul_def)
  have "round_double 200 \<le> round_double (200 + p)"
    using p0 by (intro round_double_mono) simp
  then have lo: "200 \<le> fadd 200 p" by (simp only: round_double_200 fadd_def)
  have "200 + p \<le> 1000 - 1 / 2 ^ 43" using p1 by simp
  then have "round_double (200 + p) \<le> round_double (1000 - 1 / 2 ^ 43)"
    by (rule round_double_mono)
  then have hi: "fadd 200 p \<le> 1000 - 1 / 2 ^ 43"
    by (simp only: round_double_1000_pred fadd_def)
  have "\<bar>round_double (200 + p)\<bar> < 2 ^ 1024"
    using lo hi by (simp add: fadd_def)
  then have dbl: "is_double (fadd 200 p)"
    unfolding fadd_def by (rule round_double_range)
  have "random_uniform 200 1000 k = Fin (fadd 200 p)"
    by (simp add: random_uniform_def p_def r_def)
  with lo hi dbl show ?thesis by blast
qed

lemma is_Fin_the_Fin: "is_Fin v \<Longrightarrow> Fin (the_Fin v) = v"
  by (cases v) simp_all

lemma finite_float_is_Fin: "finite_float v \<Longrightarrow> is_Fin v"
  by (cases v) simp_all

lemma fold_max_Fin:
  "list_all is_Fin vs \<Longrightarrow>
   fold (\<lambda>item m. if float_gt item m then item else m) vs (Fin a) =
     Fin (fold max (map the_Fin vs) a)"
proof (induction vs arbitrary: a)
  case Nil
  then show ?case by simp
next
  case (Cons v vs)
  then obtain x where v: "v = Fin x" by (cases v) simp_all
  from Cons show ?case
    by (simp add: v float_gt_def max_def)
qed

lemma fold_min_Fin:
  "list_all is_Fin vs \<Longrightarrow>
   fold (\<lambda>item m. if float_lt item m then item else m) vs (Fin a) =
     Fin (fold min (map the_Fin vs) a)"
proof (induction vs arbitrary: a)
  case Nil
  then show ?case by simp
next
  case (Cons v vs)
  then obtain x where v: "v = Fin x" by (cases v) simp_all
  from Cons show ?case
    by (simp add: v min_def)
qed

lemma py_max_finite:
  assumes "data \<noteq> []" "list_all is_Fin data"
  shows "py_max data = Inr (Fin (Max (set (map the_Fin data))))"
proof -
  from assms obtain x vs where d: "data = Fin x # vs" and vs: "list_all is_Fin vs"
    by (cases data) (auto dest: is_Fin_the_Fin [symmetric])
  have "Max (set (x # map the_Fin vs)) = fold max (map the_Fin vs) x"
    by (rule Max.set_eq_fold)
  then show ?thesis
    by (simp add: d fold_max_Fin [OF vs])
qed

lemma py_min_finite:
  assumes "data \<noteq> []" "list_all is_Fin data"
  shows "py_min data = Inr (Fin (Min (set (map the_Fin data))))"
proof -
  from assms obtain x vs where d: "data = Fin x # vs" and vs: "list_all is_Fin vs"
    by (cases data) (auto dest: is_Fin_the_Fin [symmetric])
  have "Min (set (x # map the_Fin vs)) = fold min (map the_Fin vs) x"
    by (rule Min.set_eq_fold)
  then show ?thesis
    by (simp add: d fold_min_Fin [OF vs])
qed

lemma sum_list_upper:
  fixes xs :: "real list"
  assumes "\<forall>x \<in> set xs. x \<le> M"
  shows "sum_list xs \<le> M * real (length xs)"
  using assms by (induction xs) (auto simp: algebra_simps)

lemma sum_list_lower:
  fixes xs :: "real list"
  assumes "\<forall>x \<in> set xs. m \<le> x"
  shows "m * real (length xs) \<le> sum_list xs"
  using assms by (induction xs) (auto simp: algebra_simps)

lemma mean_between:
  fixes xs :: "real list"
  assumes "xs \<noteq> []" "\<forall>x \<in> set xs. m \<le> x" "\<forall>x \<in> set xs. x \<le> M"
  shows "m \<le> sum_list xs / real (length xs) \<and> sum_list xs / real (length xs) \<le> M"
proof -
  have n: "0 < real (length xs)" using assms(1) by simp
  from sum_list_lower [OF assms(2)] sum_list_upper [OF assms(3)] n show ?thesis
    by (simp add: field_simps)
qed

lemma float_of_fraction_between:
  assumes "is_double lo" "is_double hi" "lo \<le> q" "q \<le> hi"
  shows "float_of_fraction q = Inr (Fin (round_double q))"
proof -
  from round_double_between [OF assms]
  have "lo \<le> round_double q" "round_double q \<le> hi" by simp_all
  moreover from is_double_bound [OF assms(1)] is_double_bound [OF assms(2)]
  have "\<bar>lo\<bar> < 2 ^ 1024" "\<bar>hi\<bar> < 2 ^ 1024" .
  ultimately have "\<bar>round_double q\<bar> < 2 ^ 1024" by linarith
  then show ?thesis by (simp add: float_of_fraction_def)
qed

lemma round_half_even_error: "\<bar>of_int (round_half_even y) - y\<bar> \<le> 1 / 2"
  by (auto simp: round_half_even_def Let_def)

lemma round_double_error: "\<bar>round_double x - x\<bar> \<le> 2 powi ulp_exponent x / 2"
proof (cases "x = 0")
  case True
  then show ?thesis by (simp add: round_double_def)
next
  case False
  define u :: real where "u = 2 powi ulp_exponent x"
  have u: "0 < u" by (simp add: u_def)
  have "round_double x - x = (of_int (round_half_even (x / u)) - x / u) * u"
    using False u by (simp add: round_double_def u_def algebra_simps)
  then have "\<bar>round_double x - x\<bar> = \<bar>of_int (round_half_even (x / u)) - x / u\<bar> * u"
    using u by (simp add: abs_mult)
  also have "\<dots> \<le> 1 / 2 * u"
    using round_half_even_error [of "x / u"] u by (simp only: mult_right_mono less_imp_le)
  finally show ?thesis by (simp add: u_def)
qed

section \<open>Properties of the stages\<close>

lemma comprehension_total: "comprehension (\<lambda>i. Inr (g i)) ns = Inr (map g ns)"
  by (induction ns) simp_all

lemma generate_mock_data_eq:
  "generate_mock_data rng lg = (map (\<lambda>i. random_uniform 200 1000 (rng i)) [0 ..< 24 * 7], lg)"
  by (simp only: generate_mock_data_def generate_mock_data_with_def comprehension_total sum.case)

lemma provide_recommendations_float:
  "provide_recommendations (PFloat a) lg =
     (if float_gt a (Fin 750)
      then [''Consider using energy-efficient appliances.'',
            ''Check insulation in your home to reduce heating/cooling costs.'']
      else if float_lt (Fin 500) a \<and> float_le a (Fin 750)
      then [''Unplug devices when not in use.'',
            ''Use programmable thermostats to reduce energy consumption.'']
      else [''You're doing great! Continue monitoring for further improvements.''], lg)"
  by (cases "float_lt (Fin 500) a")
    (simp_all add: provide_recommendations_def provide_recommendations_try_def py_between_def)

lemma analyze_energy_usage_cases:
  "(\<exists>e. analyze_energy_usage_try data = Inl e \<and>
        analyze_energy_usage data lg =
          ([], logging_error (''Error analyzing energy usage: '' @ str_exn e) lg)) \<or>
   (\<exists>a mx mn. analyze_energy_usage data lg =
        ([(''average_usage'', a), (''max_usage'', mx), (''min_usage'', mn)], lg))"
  by (auto simp: analyze_energy_usage_def analyze_energy_usage_try_def split: sum.splits)

lemma provide_recommendations_try_raise:
  "provide_recommendations_try v recs = (Some e, recs') \<Longrightarrow> recs' = recs"
  by (auto simp: provide_recommendations_try_def split: sum.splits bool.splits)

lemma statistics_mean_finite:
  assumes "data \<noteq> []" "list_all is_Fin data"
    and "is_double lo" "is_double hi"
    and "\<forall>v \<in> set data. lo \<le> the_Fin v \<and> the_Fin v \<le> hi"
  shows "statistics_mean data =
           Inr (Fin (round_double (sum_list (map the_Fin data) / real (length data))))"
    and "lo \<le> round_double (sum_list (map the_Fin data) / real (length data))"
    and "round_double (sum_list (map the_Fin data) / real (length data)) \<le> hi"
proof -
  define q where "q = sum_list (map the_Fin data) / real (length data)"
  have "map the_Fin data \<noteq> []" using assms(1) by simp
  moreover have "\<forall>x \<in> set (map the_Fin data). lo \<le> x" using assms(5) by simp
  moreover have "\<forall>x \<in> set (map the_Fin data). x \<le> hi" using assms(5) by simp
  ultimately have "lo \<le> sum_list (map the_Fin data) / real (length (map the_Fin data))
      \<and> sum_list (map the_Fin data) / real (length (map the_Fin data)) \<le> hi"
    by (rule mean_between)
  then have q: "lo \<le> q" "q \<le> hi" by (simp_all add: q_def)
  from float_of_fraction_between [OF assms(3,4) q]
  show "statistics_mean data =
           Inr (Fin (round_double (sum_list (map the_Fin data) / real (length data))))"
    using assms(1,2) by (simp add: statistics_mean_def q_def)
  from round_double_between [OF assms(3,4) q]
  show "lo \<le> round_double (sum_list (map the_Fin data) / real (length data))"
    and "round_double (sum_list (map the_Fin data) / real (length data)) \<le> hi"
    by (simp_all add: q_def)
qed

lemma analyze_energy_usage_try_finite:
  assumes "data \<noteq> []" "list_all is_Fin data"
    and "is_double lo" "is_double hi"
    and "\<forall>v \<in> set data. lo \<le> the_Fin v \<and> the_Fin v \<le> hi"
  shows "analyze_energy_usage data lg =
           ([(''average_usage'', Fin (round_double (sum_list (map the_Fin data) / real (length data)))),
             (''max_usage'', Fin (Max (set (map the_Fin data)))),
             (''min_usage'', Fin (Min (set (map the_Fin data))))], lg)"
  by (simp add: analyze_energy_usage_def analyze_energy_usage_try_def
      statistics_mean_finite(1) [OF assms] py_max_finite [OF assms(1,2)]
      py_min_finite [OF assms(1,2)])

lemma is_double_300: "is_double 300"
  using is_double_int [of 300] by simp

lemma is_double_500: "is_double 500"
  using is_double_int [of 500] by simp

lemma round_double_400: "round_double 400 = 400"
  by code_simp

lemma analyze_nan: "analyze_energy_usage [NaN] [] =
     ([(''average_usage'', NaN), (''max_usage'', NaN), (''min_usage'', NaN)], [])"
  by (simp add: analyze_energy_usage_def analyze_energy_usage_try_def statistics_mean_def)

lemma analyze_tie: "analyze_energy_usage [Fin 1, Fin (1 + 1 / 2 ^ 52)] [] =
     ([(''average_usage'', Fin 1), (''max_usage'', Fin (1 + 1 / 2 ^ 52)),
       (''min_usage'', Fin 1)], [])"
  by code_simp

lemma random_uniform_0: "random_uniform 200 1000 0 = Fin 200"
  by code_simp

lemma fold_logging_info:
  "fold (\<lambda>rec l. logging_info (Text (''- '' @ rec)) l) recs l0 =
     l0 @ map (\<lambda>r. (INFO, Text (''- '' @ r))) recs"
  by (induction recs arbitrary: l0) (simp_all add: logging_info_def)

lemma run_report_record:
  "run_report [(''average_usage'', a), (''max_usage'', mx), (''min_usage'', mn)] lg =
     (None,
      lg @ [(INFO, InsightsText [(''average_usage'', a), (''max_usage'', mx), (''min_usage'', mn)]),
            (INFO, Text ''Energy Conservation Recommendations:'')]
         @ map (\<lambda>r. (INFO, Text (''- '' @ r))) (fst (provide_recommendations (PFloat a) [])))"
proof -
  have p: "provide_recommendations (PFloat a) l = (fst (provide_recommendations (PFloat a) []), l)" for l
    by (simp add: provide_recommendations_float)
  show ?thesis
    by (simp add: run_report_def dict_get_def p [of "logging_info _ _"] fold_logging_info
        del: append.simps)
      (simp add: logging_info_def)
qed

lemma recommendations_nonempty: "fst (provide_recommendations (PFloat a) lg) \<noteq> []"
  by (simp add: provide_recommendations_float)

lemma generated_data_analysis:
  "\<exists>a mx mn. analyze_energy_usage (fst (generate_mock_data rng lg)) lg' =
     ([(''average_usage'', a), (''max_usage'', mx), (''min_usage'', mn)], lg')"
proof -
  define data where "data = fst (generate_mock_data rng lg)"
  have d: "data = map (\<lambda>i. random_uniform 200 1000 (rng i)) [0 ..< 24 * 7]"
    by (simp add: data_def generate_mock_data_eq)
  have ne: "data \<noteq> []" by (simp add: d)
  have el: "is_Fin v \<and> 200 \<le> the_Fin v \<and> the_Fin v \<le> 1000" if "v \<in> set data" for v
  proof -
    from that obtain k where "v = random_uniform 200 1000 k" by (auto simp: d)
    with random_uniform_bounds [of k] show ?thesis by auto
  qed
  have fin: "list_all is_Fin data" using el by (simp add: list_all_iff)
  have lo: "is_double 200" using is_double_int [of 200] by simp
  have hi: "is_double 1000" using is_double_int [of 1000] by simp
  have bnd: "\<forall>v \<in> set data. 200 \<le> the_Fin v \<and> the_Fin v \<le> 1000" using el by simp
  from analyze_energy_usage_try_finite [OF ne fin lo hi bnd, of lg'] show ?thesis
    by (auto simp: data_def)
qed

lemma run_smart_conserve_try_reports:
  "\<exists>insights recs. insights \<noteq> [] \<and> recs \<noteq> [] \<and>
     run_smart_conserve_try rng lg =
       (None, lg @ [(INFO, InsightsText insights), (INFO, Text ''Energy Conservation Recommendations:'')]
                @ map (\<lambda>r. (INFO, Text (''- '' @ r))) recs)"
proof -
  from generated_data_analysis [of rng lg lg] obtain a mx mn where
    an: "analyze_energy_usage (fst (generate_mock_data rng lg)) lg =
      ([(''average_usage'', a), (''max_usage'', mx), (''min_usage'', mn)], lg)" by blast
  have g: "generate_mock_data rng lg = (fst (generate_mock_data rng lg), lg)"
    by (simp add: generate_mock_data_eq)
  have ne: "fst (generate_mock_data rng lg) \<noteq> []" by (simp add: generate_mock_data_eq)
  have "run_smart_conserve_try rng lg =
      run_report [(''average_usage'', a), (''max_usage'', mx), (''min_usage'', mn)] lg"
    unfolding run_smart_conserve_try_def
    by (subst g) (simp add: run_analysis_def ne an)
  then show ?thesis
    using recommendations_nonempty [of a "[]"]
    by (simp only: run_report_record) blast
qed

lemma analyze_250: "analyze_energy_usage [Fin 250] [] =
    ([(''average_usage'', Fin 250), (''max_usage'', Fin 250), (''min_usage'', Fin 250)], [])"
  by code_simp

lemma generated_zero_analysis:
  "analyze_energy_usage (fst (generate_mock_data (\<lambda>i. 0) [])) [] =
     ([(''average_usage'', Fin 200), (''max_usage'', Fin 200), (''min_usage'', Fin 200)], [])"
proof -
  define data where "data = fst (generate_mock_data (\<lambda>i. 0 :: 53 word) [])"
  have d: "data = map (\<lambda>i. Fin 200) [0 ..< 24 * 7]"
    by (simp add: data_def generate_mock_data_eq random_uniform_0)
  have ne: "data \<noteq> []" by (simp add: d)
  have fin: "list_all is_Fin data" by (simp add: d list_all_iff)
  have dbl: "is_double 200" using is_double_int [of 200] by simp
  have bnd: "\<forall>v \<in> set data. 200 \<le> the_Fin v \<and> the_Fin v \<le> 200" by (auto simp: d)
  have s: "set (map the_Fin data) = {200}"
    by (auto simp: d intro!: image_eqI [of _ _ 0])
  from statistics_mean_finite(2,3) [OF ne fin dbl dbl bnd]
  have m: "round_double (sum_list (map the_Fin data) / real (length data)) = 200" by simp
  from analyze_energy_usage_try_finite [OF ne fin dbl dbl bnd, of "[]"]
  show ?thesis
    unfolding data_def [symmetric] by (simp only: m s Max_singleton Min_singleton)
qed

section \<open>The claims\<close>

text \<open>
  Claim C1. For every float \<open>average\<close>, the recommender returns the list of the band the
  value falls in: above 750 the two tips for high usage, above 500 and at most 750 the two
  tips for moderate usage, at most 500 the single message; each list in this order.
\<close>

theorem provide_recommendations_partition:
  "(float_gt a (Fin 750) \<longrightarrow>
      fst (provide_recommendations (PFloat a) lg) =
        [''Consider using energy-efficient appliances.'',
         ''Check insulation in your home to reduce heating/cooling costs.'']) \<and>
   (float_lt (Fin 500) a \<and> float_le a (Fin 750) \<longrightarrow>
      fst (provide_recommendations (PFloat a) lg) =
        [''Unplug devices when not in use.'',
         ''Use programmable thermostats to reduce energy consumption.'']) \<and>
   (float_le a (Fin 500) \<longrightarrow>
      fst (provide_recommendations (PFloat a) lg) =
        [''You're doing great! Continue monitoring for further improvements.''])"
  by (cases a) (auto simp: provide_recommendations_float float_gt_def)

theorem provide_recommendations_partition_witness:
  "float_gt (Fin 760) (Fin 750) \<and>
   fst (provide_recommendations (PFloat (Fin 760)) []) =
     [''Consider using energy-efficient appliances.'',
      ''Check insulation in your home to reduce heating/cooling costs.''] \<and>
   float_lt (Fin 500) (Fin 600) \<and> float_le (Fin 600) (Fin 750) \<and>
   fst (provide_recommendations (PFloat (Fin 600)) []) =
     [''Unplug devices when not in use.'',
      ''Use programmable thermostats to reduce energy consumption.''] \<and>
   float_le (Fin 300) (Fin 500) \<and>
   fst (provide_recommendations (PFloat (Fin 300)) []) =
     [''You're doing great! Continue monitoring for further improvements.'']"
  using provide_recommendations_partition [of "Fin 760" "[]"]
    provide_recommendations_partition [of "Fin 600" "[]"]
    provide_recommendations_partition [of "Fin 300" "[]"]
  by (simp add: float_gt_def)

text \<open>
  Claim C2, as the code has it. For every non-empty sequence of finite floats the analyzer
  returns the record of three values: \<open>average_usage\<close> is the arithmetic mean rounded
  to the nearest double, at most half a unit in the last place away from the exact mean;
  \<open>max_usage\<close> and \<open>min_usage\<close> are the maximum and the minimum; and
  \<open>max_usage \<ge> average_usage \<ge> min_usage\<close>.
\<close>

theorem analyze_energy_usage_finite:
  assumes "data \<noteq> []" and "list_all finite_float data"
  shows "\<exists>avg mx mn.
           analyze_energy_usage data lg =
             ([(''average_usage'', Fin avg), (''max_usage'', Fin mx), (''min_usage'', Fin mn)], lg) \<and>
           avg = round_double (sum_list (map the_Fin data) / real (length data)) \<and>
           is_double avg \<and>
           \<bar>avg - sum_list (map the_Fin data) / real (length data)\<bar>
             \<le> 2 powi ulp_exponent (sum_list (map the_Fin data) / real (length data)) / 2 \<and>
           mx = Max (set (map the_Fin data)) \<and>
           mn = Min (set (map the_Fin data)) \<and>
           float_ge (Fin mx) (Fin avg) \<and> float_ge (Fin avg) (Fin mn)"
proof -
  define xs where "xs = map the_Fin data"
  have ne: "set xs \<noteq> {}" and fin: "finite (set xs)" using assms(1) by (simp_all add: xs_def)
  have allfin: "list_all is_Fin data"
    using assms(2) by (auto simp: list_all_iff intro: finite_float_is_Fin)
  have dbl: "is_double x" if "x \<in> set xs" for x
  proof -
    from that obtain v where v: "v \<in> set data" "x = the_Fin v" by (auto simp: xs_def)
    with assms(2) have "finite_float v" by (simp add: list_all_iff)
    with v(2) show ?thesis by (cases v) simp_all
  qed
  have lo: "is_double (Min (set xs))" using Min_in [OF fin ne] by (rule dbl)
  have hi: "is_double (Max (set xs))" using Max_in [OF fin ne] by (rule dbl)
  have bnd: "\<forall>v \<in> set data. Min (set xs) \<le> the_Fin v \<and> the_Fin v \<le> Max (set xs)"
    using fin by (auto simp: xs_def)
  note m = statistics_mean_finite [OF assms(1) allfin lo hi bnd]
  note a = analyze_energy_usage_try_finite [OF assms(1) allfin lo hi bnd, of lg]
  from m(2,3) is_double_bound [OF lo] is_double_bound [OF hi]
  have "\<bar>round_double (sum_list (map the_Fin data) / real (length data))\<bar> < 2 ^ 1024"
    by linarith
  then have d: "is_double (round_double (sum_list (map the_Fin data) / real (length data)))"
    by (rule round_double_range)
  show ?thesis
    using a m(2,3) d round_double_error [of "sum_list (map the_Fin data) / real (length data)"]
    by (simp add: xs_def float_ge_def)
qed

theorem analyze_energy_usage_finite_witness:
  "[Fin 300, Fin 500] \<noteq> [] \<and> list_all finite_float [Fin 300, Fin 500] \<and>
   analyze_energy_usage [Fin 300, Fin 500] [] =
     ([(''average_usage'', Fin 400), (''max_usage'', Fin 500), (''min_usage'', Fin 300)], []) \<and>
   float_ge (Fin 500) (Fin 400) \<and> float_ge (Fin 400) (Fin 300)"
proof -
  have h: "list_all finite_float [Fin 300, Fin 500]"
    by (simp add: is_double_300 is_double_500)
  show ?thesis
    using h analyze_energy_usage_finite [OF _ h, of "[]"]
    by (simp add: round_double_400 float_ge_def)
qed

text \<open>
  Claim C2 as stated, for every non-empty sequence of floats, fails on two counts. On the
  sequence holding NaN alone all three values are NaN, and \<open>NaN \<ge> NaN\<close> is false. On
  the two adjacent doubles \<open>1\<close> and \<open>1 + 2^-52\<close> the exact mean \<open>1 + 2^-53\<close> is
  no double, and the average returned is \<open>1\<close>.
\<close>

theorem analyze_energy_usage_counterexample:
  "analyze_energy_usage [NaN] [] =
     ([(''average_usage'', NaN), (''max_usage'', NaN), (''min_usage'', NaN)], []) \<and>
   \<not> float_ge NaN NaN \<and>
   analyze_energy_usage [Fin 1, Fin (1 + 1 / 2 ^ 52)] [] =
     ([(''average_usage'', Fin 1), (''max_usage'', Fin (1 + 1 / 2 ^ 52)),
       (''min_usage'', Fin 1)], []) \<and>
   (1 + (1 + 1 / 2 ^ 52)) / 2 \<noteq> (1::real)"
  using analyze_nan analyze_tie by (simp add: float_ge_def)

text \<open>
  Claim C3. No exception leaves \<open>run_smart_conserve\<close>: the handler turns every
  exception of the \<open>try\<close> block into one error entry of the log and returns normally.
  When the generated data and the record of the analysis are both non-empty, the lookup of
  \<open>average_usage\<close> in the record succeeds and the log gains the insights entry, the
  header, and one entry for each element of the list the recommender returns for that
  average, a list that is not empty.
\<close>

theorem run_smart_conserve_never_raises:
  "fst (run_smart_conserve rng lg) = None \<and>
   run_except (Some e, l) =
     (None, l @ [(ERROR, Text (''Error running smart-conserve: '' @ str_exn e))]) \<and>
   (fst (generate_mock_data rng lg) \<noteq> [] \<and>
    fst (analyze_energy_usage (fst (generate_mock_data rng lg)) lg) \<noteq> [] \<longrightarrow>
      (\<exists>a. dict_get (fst (analyze_energy_usage (fst (generate_mock_data rng lg)) lg))
              ''average_usage'' = Inr a \<and>
           fst (provide_recommendations (PFloat a) []) \<noteq> [] \<and>
           snd (run_smart_conserve rng lg) =
             lg @ [(INFO, InsightsText (fst (analyze_energy_usage (fst (generate_mock_data rng lg)) lg))),
                   (INFO, Text ''Energy Conservation Recommendations:'')]
                @ map (\<lambda>r. (INFO, Text (''- '' @ r)))
                    (fst (provide_recommendations (PFloat a) []))))"
proof (intro conjI impI)
  show "fst (run_smart_conserve rng lg) = None"
    unfolding run_smart_conserve_def
    by (cases "run_smart_conserve_try rng lg" rule: run_except.cases) simp_all
  show "run_except (Some e, l) =
     (None, l @ [(ERROR, Text (''Error running smart-conserve: '' @ str_exn e))])"
    by (simp add: logging_error_def)
next
  define data where "data = fst (generate_mock_data rng lg)"
  assume "fst (generate_mock_data rng lg) \<noteq> [] \<and>
    fst (analyze_energy_usage (fst (generate_mock_data rng lg)) lg) \<noteq> []"
  then have ne: "data \<noteq> []" and ins: "fst (analyze_energy_usage data lg) \<noteq> []"
    by (simp_all add: data_def)
  have g: "generate_mock_data rng lg = (data, lg)"
    by (simp add: data_def generate_mock_data_eq)
  from analyze_energy_usage_cases [of data lg] ins obtain a mx mn where
    an: "analyze_energy_usage data lg =
      ([(''average_usage'', a), (''max_usage'', mx), (''min_usage'', mn)], lg)"
    by auto
  have lk: "dict_get (fst (analyze_energy_usage data lg)) ''average_usage'' = Inr a"
    by (simp add: an dict_get_def)
  have "run_smart_conserve_try rng lg =
      run_report [(''average_usage'', a), (''max_usage'', mx), (''min_usage'', mn)] lg"
    by (simp add: run_smart_conserve_try_def g run_analysis_def ne an)
  then have "snd (run_smart_conserve rng lg) =
      lg @ [(INFO, InsightsText (fst (analyze_energy_usage data lg))),
            (INFO, Text ''Energy Conservation Recommendations:'')]
         @ map (\<lambda>r. (INFO, Text (''- '' @ r))) (fst (provide_recommendations (PFloat a) []))"
    by (simp add: run_smart_conserve_def run_report_record an)
  with lk recommendations_nonempty [of a "[]"]
  show "\<exists>a. dict_get (fst (analyze_energy_usage (fst (generate_mock_data rng lg)) lg))
              ''average_usage'' = Inr a \<and>
           fst (provide_recommendations (PFloat a) []) \<noteq> [] \<and>
           snd (run_smart_conserve rng lg) =
             lg @ [(INFO, InsightsText (fst (analyze_energy_usage (fst (generate_mock_data rng lg)) lg))),
                   (INFO, Text ''Energy Conservation Recommendations:'')]
                @ map (\<lambda>r. (INFO, Text (''- '' @ r)))
                    (fst (provide_recommendations (PFloat a) []))"
    unfolding data_def by blast
qed

theorem run_smart_conserve_never_raises_witness:
  "fst (generate_mock_data (\<lambda>i. 0) []) \<noteq> [] \<and>
   fst (analyze_energy_usage (fst (generate_mock_data (\<lambda>i. 0) [])) []) \<noteq> [] \<and>
   run_smart_conserve (\<lambda>i. 0) [] =
     (None,
      [(INFO, InsightsText [(''average_usage'', Fin 200), (''max_usage'', Fin 200),
                            (''min_usage'', Fin 200)]),
       (INFO, Text ''Energy Conservation Recommendations:''),
       (INFO, Text ''- You're doing great! Continue monitoring for further improvements.'')])"
proof -
  have g: "fst (generate_mock_data (\<lambda>i. 0) []) \<noteq> []"
    by (simp add: generate_mock_data_eq)
  have a: "fst (analyze_energy_usage (fst (generate_mock_data (\<lambda>i. 0) [])) []) \<noteq> []"
    by (simp add: generated_zero_analysis)
  have p: "fst (provide_recommendations (PFloat (Fin 200)) []) =
      [''You're doing great! Continue monitoring for further improvements.'']"
    by (simp add: provide_recommendations_float float_gt_def)
  from run_smart_conserve_never_raises [of "\<lambda>i. 0" "[]" "ValueError []" "[]"] g a
  have f: "fst (run_smart_conserve (\<lambda>i. 0) []) = None"
    and "\<exists>a. dict_get (fst (analyze_energy_usage (fst (generate_mock_data (\<lambda>i. 0) [])) []))
              ''average_usage'' = Inr a \<and>
           snd (run_smart_conserve (\<lambda>i. 0) []) =
             [] @ [(INFO, InsightsText (fst (analyze_energy_usage (fst (generate_mock_data (\<lambda>i. 0) [])) []))),
                   (INFO, Text ''Energy Conservation Recommendations:'')]
                @ map (\<lambda>r. (INFO, Text (''- '' @ r)))
                    (fst (provide_recommendations (PFloat a) []))"
    by blast+
  then have s: "snd (run_smart_conserve (\<lambda>i. 0) []) =
     [(INFO, InsightsText [(''average_usage'', Fin 200), (''max_usage'', Fin 200),
                            (''min_usage'', Fin 200)]),
       (INFO, Text ''Energy Conservation Recommendations:''),
       (INFO, Text ''- You're doing great! Continue monitoring for further improvements.'')]"
    by (auto simp: generated_zero_analysis dict_get_def p)
  from f s have "run_smart_conserve (\<lambda>i. 0) [] =
     (None,
      [(INFO, InsightsText [(''average_usage'', Fin 200), (''max_usage'', Fin 200),
                            (''min_usage'', Fin 200)]),
       (INFO, Text ''Energy Conservation Recommendations:''),
       (INFO, Text ''- You're doing great! Continue monitoring for further improvements.'')])"
    by (cases "run_smart_conserve (\<lambda>i. 0) []") simp
  with g a show ?thesis by blast
qed

text \<open>
  Claim C4. The generated sequence has exactly 168 elements, and each is a finite float
  \<open>v\<close>, a representable double, with \<open>200 \<le> v < 1000\<close>: the two roundings of \<open>200 + 800 * random()\<close> never
  reach 1000, since the largest value \<open>random()\<close> returns is \<open>1 - 2^-53\<close>.
\<close>

theorem generate_mock_data_range:
  "length (fst (generate_mock_data rng lg)) = 168 \<and>
   (\<forall>v \<in> set (fst (generate_mock_data rng lg)).
      \<exists>x. v = Fin x \<and> is_double x \<and> 200 \<le> x \<and> x < 1000)"
proof -
  have "\<exists>x. random_uniform 200 1000 k = Fin x \<and> is_double x \<and> 200 \<le> x \<and> x < 1000" for k
    using random_uniform_bounds [of k] by auto
  then show ?thesis
    by (auto simp: generate_mock_data_eq)
qed

theorem generate_mock_data_range_witness:
  "length (fst (generate_mock_data (\<lambda>i. 0) [])) = 168 \<and>
   Fin 200 \<in> set (fst (generate_mock_data (\<lambda>i. 0) [])) \<and>
   (\<exists>x. Fin 200 = Fin x \<and> is_double x \<and> 200 \<le> x \<and> x < 1000)"
proof -
  have m: "Fin 200 \<in> set (fst (generate_mock_data (\<lambda>i. 0) []))"
    by (auto simp: generate_mock_data_eq random_uniform_0 intro!: image_eqI [of _ _ 0])
  show ?thesis
    using m generate_mock_data_range [of "\<lambda>i. 0" "[]"] by blast
qed

text \<open>
  Claim C5. On the empty sequence the analyzer does not raise: the error of
  \<open>statistics.mean\<close> is caught and logged, the empty record is returned, and the runner,
  given this record, aborts with its own error.
\<close>

theorem analyze_energy_usage_empty:
  "analyze_energy_usage [] lg =
     ([], lg @ [(ERROR, Text ''Error analyzing energy usage: mean requires at least one data point'')]) \<and>
   run_report (fst (analyze_energy_usage [] lg)) lg' =
     (Some (ValueError ''Could not analyze energy data.''), lg')"
  by (simp add: analyze_energy_usage_def analyze_energy_usage_try_def statistics_mean_def
      logging_error_def run_report_def)

text \<open>
  Claim C6. In each of the three stages, an exception raised inside the \<open>try\<close> block is
  caught: the stage appends one error-level message to the log and returns its empty
  sentinel, the empty list for the generator and the recommender, the empty record for the
  analyzer.
\<close>

theorem stage_exception_sentinel:
  "(comprehension sample [0 ..< 24 * 7] = Inl e \<longrightarrow>
      generate_mock_data_with sample lg =
        ([], lg @ [(ERROR, Text (''Error generating mock data: '' @ str_exn e))])) \<and>
   (analyze_energy_usage_try data = Inl e \<longrightarrow>
      analyze_energy_usage data lg =
        ([], lg @ [(ERROR, Text (''Error analyzing energy usage: '' @ str_exn e))])) \<and>
   (fst (provide_recommendations_try v []) = Some e \<longrightarrow>
      provide_recommendations v lg =
        ([], lg @ [(ERROR, Text (''Error providing recommendations: '' @ str_exn e))]))"
proof (intro conjI impI)
  assume "comprehension sample [0 ..< 24 * 7] = Inl e"
  then show "generate_mock_data_with sample lg =
        ([], lg @ [(ERROR, Text (''Error generating mock data: '' @ str_exn e))])"
    by (simp add: generate_mock_data_with_def logging_error_def)
next
  assume "analyze_energy_usage_try data = Inl e"
  then show "analyze_energy_usage data lg =
        ([], lg @ [(ERROR, Text (''Error analyzing energy usage: '' @ str_exn e))])"
    by (simp add: analyze_energy_usage_def logging_error_def)
next
  assume a: "fst (provide_recommendations_try v []) = Some e"
  obtain recs where r: "provide_recommendations_try v [] = (Some e, recs)"
    using a by (cases "provide_recommendations_try v []") simp
  from provide_recommendations_try_raise [OF r] have "recs = []" .
  with r show "provide_recommendations v lg =
        ([], lg @ [(ERROR, Text (''Error providing recommendations: '' @ str_exn e))])"
    by (simp add: provide_recommendations_def logging_error_def)
qed

theorem stage_exception_sentinel_witness:
  "comprehension (\<lambda>i. if i = 3 then Inl (OverflowError ''boom'') else Inr (Fin 200)) [0 ..< 24 * 7]
     = Inl (OverflowError ''boom'') \<and>
   generate_mock_data_with (\<lambda>i. if i = 3 then Inl (OverflowError ''boom'') else Inr (Fin 200)) []
     = ([], [(ERROR, Text ''Error generating mock data: boom'')]) \<and>
   analyze_energy_usage_try [] = Inl (StatisticsError ''mean requires at least one data point'') \<and>
   analyze_energy_usage [] []
     = ([], [(ERROR, Text ''Error analyzing energy usage: mean requires at least one data point'')]) \<and>
   fst (provide_recommendations_try PNone []) = Some (unsupported ''>'' ''NoneType'' ''int'') \<and>
   provide_recommendations PNone []
     = ([], [(ERROR, Text (''Error providing recommendations: ''
                            @ str_exn (unsupported ''>'' ''NoneType'' ''int'')))])"
proof -
  have c: "comprehension (\<lambda>i. if i = 3 then Inl (OverflowError ''boom'') else Inr (Fin 200)) [0 ..< 24 * 7]
     = Inl (OverflowError ''boom'')"
    by (simp add: upt_conv_Cons)
  have a: "analyze_energy_usage_try [] = Inl (StatisticsError ''mean requires at least one data point'')"
    by (simp add: analyze_energy_usage_try_def statistics_mean_def)
  have r: "fst (provide_recommendations_try PNone []) = Some (unsupported ''>'' ''NoneType'' ''int'')"
    by (simp add: provide_recommendations_try_def)
  show ?thesis
    using c a r
      stage_exception_sentinel [of "\<lambda>i. if i = 3 then Inl (OverflowError ''boom'') else Inr (Fin 200)"
        "OverflowError ''boom''" "[]" "[]" "PNone"]
      stage_exception_sentinel [of "\<lambda>i. Inr NaN"
        "StatisticsError ''mean requires at least one data point''" "[]" "[]" "PNone"]
      stage_exception_sentinel [of "\<lambda>i. Inr NaN"
        "unsupported ''>'' ''NoneType'' ''int''" "[]" "[]" "PNone"]
    by simp
qed

text \<open>
  Claim C7. On a float the recommender raises nothing, leaves the log as it found it, and
  its list depends on the float alone: two calls with the same float return the same list,
  whatever the log was.
\<close>

theorem provide_recommendations_pure:
  "provide_recommendations_try (PFloat a) [] =
     (None, fst (provide_recommendations (PFloat a) lg)) \<and>
   snd (provide_recommendations (PFloat a) lg) = lg \<and>
   fst (provide_recommendations (PFloat a) lg) = fst (provide_recommendations (PFloat a) lg')"
  by (auto simp: provide_recommendations_def provide_recommendations_try_def py_between_def
      split: bool.splits)

text \<open>
  Claim C8. For every float, NaN included, the list returned is not empty, has one or two
  elements, and holds only the five fixed recommendations; on NaN, no comparison holds and
  the list is the single message of the last branch.
\<close>

theorem provide_recommendations_range:
  "fst (provide_recommendations (PFloat a) lg) \<noteq> [] \<and>
   length (fst (provide_recommendations (PFloat a) lg)) \<in> {1, 2} \<and>
   set (fst (provide_recommendations (PFloat a) lg)) \<subseteq>
     {''Consider using energy-efficient appliances.'',
      ''Check insulation in your home to reduce heating/cooling costs.'',
      ''Unplug devices when not in use.'',
      ''Use programmable thermostats to reduce energy consumption.'',
      ''You're doing great! Continue monitoring for further improvements.''} \<and>
   fst (provide_recommendations (PFloat NaN) lg) =
     [''You're doing great! Continue monitoring for further improvements.'']"
  by (simp add: provide_recommendations_float float_gt_def)

text \<open>
  Claim C9. The comprehension of the generator never raises, so the generator returns a
  non-empty list and logs nothing; the \<open>try\<close> block of the runner never ends with the
  error \<open>No energy data available.\<close>, and a run that starts from the empty log never
  logs it.
\<close>

theorem generate_mock_data_never_fails:
  "comprehension (\<lambda>i. Inr (random_uniform 200 1000 (rng i))) [0 ..< 24 * 7] \<noteq> Inl e \<and>
   fst (generate_mock_data rng lg) \<noteq> [] \<and>
   snd (generate_mock_data rng lg) = lg \<and>
   fst (run_smart_conserve_try rng lg) \<noteq> Some (ValueError ''No energy data available.'') \<and>
   (ERROR, Text ''Error running smart-conserve: No energy data available.'')
     \<notin> set (snd (run_smart_conserve rng []))"
proof -
  from run_smart_conserve_try_reports [of rng "[]"] obtain insights recs where
    r: "run_smart_conserve_try rng [] =
       (None, [] @ [(INFO, InsightsText insights), (INFO, Text ''Energy Conservation Recommendations:'')]
                @ map (\<lambda>r. (INFO, Text (''- '' @ r))) recs)" by blast
  have 5: "(ERROR, Text ''Error running smart-conserve: No energy data available.'')
     \<notin> set (snd (run_smart_conserve rng []))"
    by (auto simp: run_smart_conserve_def r)
  from run_smart_conserve_try_reports [of rng lg]
  have 4: "fst (run_smart_conserve_try rng lg) \<noteq> Some (ValueError ''No energy data available.'')"
    by auto
  show ?thesis
    using 4 5 by (simp add: comprehension_total generate_mock_data_eq)
qed

text \<open>
  Claim C10. A non-empty record returned by the analyzer has exactly the keys
  \<open>average_usage\<close>, \<open>max_usage\<close> and \<open>min_usage\<close>, in this order; the lookup of
  \<open>average_usage\<close> succeeds, and the runner, given the record, raises no \<open>KeyError\<close>.
\<close>

theorem analyze_energy_usage_keys:
  assumes "analyze_energy_usage data lg = (insights, lg')" and "insights \<noteq> []"
  shows "map fst insights = [''average_usage'', ''max_usage'', ''min_usage''] \<and>
         (\<exists>v. dict_get insights ''average_usage'' = Inr v) \<and>
         fst (run_report insights lg'') \<noteq> Some (KeyError k)"
proof -
  from analyze_energy_usage_cases [of data lg] assms obtain a mx mn where
    i: "insights = [(''average_usage'', a), (''max_usage'', mx), (''min_usage'', mn)]"
    by auto
  show ?thesis
    by (simp add: i run_report_record dict_get_def)
qed

theorem analyze_energy_usage_keys_witness:
  "analyze_energy_usage [Fin 250] [] =
     ([(''average_usage'', Fin 250), (''max_usage'', Fin 250), (''min_usage'', Fin 250)], []) \<and>
   [(''average_usage'', Fin 250), (''max_usage'', Fin 250), (''min_usage'', Fin 250)] \<noteq> [] \<and>
   map fst [(''average_usage'', Fin 250), (''max_usage'', Fin 250), (''min_usage'', Fin 250)]
     = [''average_usage'', ''max_usage'', ''min_usage''] \<and>
   dict_get [(''average_usage'', Fin 250), (''max_usage'', Fin 250), (''min_usage'', Fin 250)]
     ''average_usage'' = Inr (Fin 250) \<and>
   fst (run_report [(''average_usage'', Fin 250), (''max_usage'', Fin 250), (''min_usage'', Fin 250)] [])
     \<noteq> Some (KeyError ''average_usage'')"
  using analyze_250 analyze_energy_usage_keys [OF analyze_250, of "[]" "''average_usage''"]
  by (simp add: dict_get_def)

end
